theory Spec2Isabelle
  imports Main
begin

section \<open>The circuit object of the quantum-computing library\<close>

text \<open>
  \<^verbatim>\<open>bernstein_vazirani_circuit\<close> (src/qiskit_tutorial/bernstein_bazarani.py) builds a
  \<^verbatim>\<open>QuantumCircuit\<close> by calling its methods \<^verbatim>\<open>x\<close>, \<^verbatim>\<open>h\<close>, \<^verbatim>\<open>cx\<close>, \<^verbatim>\<open>barrier\<close> and
  \<^verbatim>\<open>measure\<close>. The class belongs to the external library (qiskit), not to the
  repository. A circuit is modelled as the spec describes a circuit description: the
  declared number of qubit lines, the declared number of classical bits, and the ordered
  list of operations, each carrying the indices of its lines. A method call appends to
  the list, one operation per line where the argument is a range.
\<close>

datatype instruction =
    XGate nat
  | HGate nat
  | CXGate nat nat
  | Barrier "nat list"
  | Measure nat nat

record QuantumCircuit =
  n_qubits :: nat
  n_clbits :: nat
  data :: "instruction list"

text \<open>
  A method call of the library raises \<^verbatim>\<open>CircuitError\<close> when a line or bit index is not
  declared, when a gate is given an empty list of lines, when control and target of a
  controlled flip coincide, and when a measurement is given lists that do not pair up.
  Each of these is a branch of the model, so that "the builder returns a circuit" is a
  statement to prove about the indices the builder passes.
\<close>

datatype error =
    IndexOutOfRange
  | EmptyArguments
  | DuplicateQubits
  | RegisterSizeError

type_synonym 'a result = "error + 'a"

definition bind_r :: "'a result \<Rightarrow> ('a \<Rightarrow> 'b result) \<Rightarrow> 'b result" where
  "bind_r m f = (case m of Inl e \<Rightarrow> Inl e | Inr x \<Rightarrow> f x)"

definition new_circuit :: "nat \<Rightarrow> nat \<Rightarrow> QuantumCircuit" where
  \<comment> \<open>\<^verbatim>\<open>QuantumCircuit(num_qubits, num_clbits)\<close>: no operations yet.\<close>
  "new_circuit nq nc = \<lparr>n_qubits = nq, n_clbits = nc, data = []\<rparr>"

definition emit :: "instruction list \<Rightarrow> QuantumCircuit \<Rightarrow> QuantumCircuit" where
  "emit gs c = c\<lparr>data := data c @ gs\<rparr>"

definition qubits_ok :: "nat list \<Rightarrow> QuantumCircuit \<Rightarrow> bool" where
  "qubits_ok qs c = list_all (\<lambda>q. q < n_qubits c) qs"

definition clbits_ok :: "nat list \<Rightarrow> QuantumCircuit \<Rightarrow> bool" where
  "clbits_ok cs c = list_all (\<lambda>b. b < n_clbits c) cs"

definition qc_x :: "nat \<Rightarrow> QuantumCircuit \<Rightarrow> QuantumCircuit result" where
  \<comment> \<open>\<^verbatim>\<open>circuit.x(q)\<close> with an integer index.\<close>
  "qc_x q c = (if \<not> qubits_ok [q] c then Inl IndexOutOfRange else Inr (emit [XGate q] c))"

definition qc_h :: "nat list \<Rightarrow> QuantumCircuit \<Rightarrow> QuantumCircuit result" where
  \<comment> \<open>\<^verbatim>\<open>circuit.h(range(...))\<close>: one gate per line of the range, in order. The library
      resolves the indices first and then refuses an empty list of lines.\<close>
  "qc_h qs c =
     (if \<not> qubits_ok qs c then Inl IndexOutOfRange
      else if qs = [] then Inl EmptyArguments
      else Inr (emit (map HGate qs) c))"

definition qc_cx :: "nat \<Rightarrow> nat \<Rightarrow> QuantumCircuit \<Rightarrow> QuantumCircuit result" where
  \<comment> \<open>\<^verbatim>\<open>circuit.cx(control, target)\<close> with integer indices; control and target must
      differ.\<close>
  "qc_cx ctl tgt c =
     (if \<not> qubits_ok [ctl, tgt] c then Inl IndexOutOfRange
      else if ctl = tgt then Inl DuplicateQubits
      else Inr (emit [CXGate ctl tgt] c))"

definition qc_barrier :: "QuantumCircuit \<Rightarrow> QuantumCircuit result" where
  \<comment> \<open>\<^verbatim>\<open>circuit.barrier()\<close> without arguments: one barrier across all declared lines.\<close>
  "qc_barrier c = Inr (emit [Barrier [0..<n_qubits c]] c)"

definition qc_measure :: "nat list \<Rightarrow> nat list \<Rightarrow> QuantumCircuit \<Rightarrow> QuantumCircuit result" where
  \<comment> \<open>\<^verbatim>\<open>circuit.measure(range(...), range(...))\<close>: lines and classical bits of equal
      number are paired by position; a single line is read into each of several bits.\<close>
  "qc_measure qs cs c =
     (if \<not> qubits_ok qs c \<or> \<not> clbits_ok cs c then Inl IndexOutOfRange
      else if length qs = length cs then Inr (emit (map (\<lambda>(q, b). Measure q b) (zip qs cs)) c)
      else if length qs = 1 \<and> cs \<noteq> [] then Inr (emit (map (Measure (hd qs)) cs) c)
      else Inl RegisterSizeError)"

section \<open>The builder\<close>

text \<open>
  The oracle loop of the builder,
  \<^verbatim>\<open>for i, bit in enumerate(reversed(secret_str)): if bit == "1": ...\<close>,
  over the already enumerated pairs (the loop variable \<^verbatim>\<open>bit\<close> is \<open>b\<close> here). An error
  raised by a method call ends the loop. The secret is a \<open>string\<close>, a list of 8-bit
  characters; the builder only takes its length and compares its characters with \<open>1\<close>.
\<close>

fun oracle_loop ::
  "bool \<Rightarrow> bool \<Rightarrow> nat \<Rightarrow> (nat \<times> char) list \<Rightarrow> QuantumCircuit \<Rightarrow> QuantumCircuit result" where
  "oracle_loop use_ancilla use_paired_qubits n [] circuit = Inr circuit"
| "oracle_loop use_ancilla use_paired_qubits n ((i, b) # rest) circuit =
     (if b = CHR ''1'' then
        bind_r
          (if use_ancilla then qc_cx i n circuit
           else if use_paired_qubits then qc_cx i (n + i) circuit
           else qc_x i circuit)
          (oracle_loop use_ancilla use_paired_qubits n rest)
      else oracle_loop use_ancilla use_paired_qubits n rest circuit)"

definition bernstein_vazirani_circuit :: "string \<Rightarrow> bool \<Rightarrow> bool \<Rightarrow> QuantumCircuit result" where
  "bernstein_vazirani_circuit secret_str use_ancilla use_paired_qubits =
     (let n = length secret_str;
          num_qubits = (if use_ancilla then n + 1 else if use_paired_qubits then 2 * n else n);
          circuit = new_circuit num_qubits n
      in
        bind_r (if use_ancilla then bind_r (qc_x n circuit) (qc_h [0..<n + 1])
                else qc_h [0..<n] circuit) (\<lambda>circuit.
        bind_r (qc_barrier circuit) (\<lambda>circuit.
        bind_r (oracle_loop use_ancilla use_paired_qubits n
                  (enumerate 0 (rev secret_str)) circuit) (\<lambda>circuit.
        bind_r (qc_barrier circuit) (\<lambda>circuit.
        bind_r (qc_h [0..<n] circuit) (\<lambda>circuit.
        qc_measure [0..<n] [0..<n] circuit))))))"

section \<open>Notions the specification speaks in\<close>

text \<open>
  The secret is read right to left: position \<open>i\<close> is the character at index
  \<open>n - 1 - i\<close> from the left. \<open>one_positions\<close> lists, in ascending order, the positions
  whose character is \<open>1\<close>; \<open>popcount\<close> counts the characters \<open>1\<close>. \<open>expected_data\<close> is the
  construction sequence of the spec: initialisation, barrier, one oracle operation per
  position holding \<open>1\<close>, barrier, basis change, measurement.
\<close>

definition one_positions :: "string \<Rightarrow> nat list" where
  "one_positions s = filter (\<lambda>i. s ! (length s - 1 - i) = CHR ''1'') [0..<length s]"

definition required_qubits :: "bool \<Rightarrow> bool \<Rightarrow> nat \<Rightarrow> nat" where
  "required_qubits use_ancilla use_paired_qubits n =
     (if use_ancilla then n + 1 else if use_paired_qubits then 2 * n else n)"

definition oracle_gate :: "bool \<Rightarrow> bool \<Rightarrow> nat \<Rightarrow> nat \<Rightarrow> instruction" where
  "oracle_gate use_ancilla use_paired_qubits n i =
     (if use_ancilla then CXGate i n
      else if use_paired_qubits then CXGate i (n + i)
      else XGate i)"

definition init_gates :: "bool \<Rightarrow> nat \<Rightarrow> instruction list" where
  "init_gates use_ancilla n =
     (if use_ancilla then XGate n # map HGate [0..<n + 1] else map HGate [0..<n])"

definition expected_data :: "string \<Rightarrow> bool \<Rightarrow> bool \<Rightarrow> instruction list" where
  "expected_data s use_ancilla use_paired_qubits =
     (let n = length s; nq = required_qubits use_ancilla use_paired_qubits n in
        init_gates use_ancilla n
        @ [Barrier [0..<nq]]
        @ map (oracle_gate use_ancilla use_paired_qubits n) (one_positions s)
        @ [Barrier [0..<nq]]
        @ map HGate [0..<n]
        @ map (\<lambda>i. Measure i i) [0..<n])"

definition popcount :: "string \<Rightarrow> nat" where
  "popcount s = length (filter (\<lambda>ch. ch = CHR ''1'') s)"

definition zeroed :: "string \<Rightarrow> string" where
  \<comment> \<open>every character other than \<open>1\<close> replaced by \<open>0\<close>\<close>
  "zeroed s = map (\<lambda>ch. if ch = CHR ''1'' then CHR ''1'' else CHR ''0'') s"

fun is_cx :: "instruction \<Rightarrow> bool" where
  "is_cx (CXGate ctl tgt) = True"
| "is_cx g = False"

fun is_measurement :: "instruction \<Rightarrow> bool" where
  "is_measurement (Measure q b) = True"
| "is_measurement g = False"

section \<open>What the method calls of the builder do\<close>

lemma bind_Inr: "bind_r (Inr x) f = f x"
  by (simp add: bind_r_def)

lemma emit_emit: "emit gs (emit hs c) = emit (hs @ gs) c"
  by (simp add: emit_def)

lemma emit_Nil: "emit [] c = c"
  by (simp add: emit_def)

lemma n_qubits_emit: "n_qubits (emit gs c) = n_qubits c"
  by (simp add: emit_def)

lemma oracle_step:
  assumes "i < n" and "required_qubits ua up n \<le> n_qubits c"
  shows "(if ua then qc_cx i n c else if up then qc_cx i (n + i) c else qc_x i c)
         = Inr (emit [oracle_gate ua up n i] c)"
  using assms
  by (cases ua; cases up)
     (simp_all add: qc_cx_def qc_x_def qubits_ok_def oracle_gate_def required_qubits_def)

lemma oracle_loop_emit:
  assumes "\<forall>p \<in> set ps. fst p < n" and "required_qubits ua up n \<le> n_qubits c"
  shows "oracle_loop ua up n ps c =
         Inr (emit (map (\<lambda>p. oracle_gate ua up n (fst p)) (filter (\<lambda>p. snd p = CHR ''1'') ps)) c)"
  using assms
proof (induction ps arbitrary: c)
  case Nil
  then show ?case by (simp add: emit_Nil)
next
  case (Cons p ps)
  obtain i b where p: "p = (i, b)" by (cases p)
  from Cons.prems p have i: "i < n" by simp
  from Cons.prems have rest: "\<forall>q \<in> set ps. fst q < n" by simp
  show ?case
  proof (cases "b = CHR ''1''")
    case True
    have "oracle_loop ua up n (p # ps) c
          = oracle_loop ua up n ps (emit [oracle_gate ua up n i] c)"
      using True p oracle_step [OF i Cons.prems(2)] by (simp add: bind_r_def)
    also have "\<dots> = Inr (emit (map (\<lambda>p. oracle_gate ua up n (fst p))
                        (filter (\<lambda>p. snd p = CHR ''1'') ps)) (emit [oracle_gate ua up n i] c))"
      using Cons.IH [OF rest] Cons.prems(2) by (simp add: n_qubits_emit)
    finally show ?thesis using True p by (simp add: emit_emit)
  next
    case False
    then show ?thesis using p Cons.IH [OF rest Cons.prems(2)] by simp
  qed
qed

lemma enumerate_ones:
  "map fst (filter (\<lambda>p. snd p = x) (enumerate k xs))
   = filter (\<lambda>i. xs ! (i - k) = x) [k..<k + length xs]"
proof (induction xs arbitrary: k)
  case Nil
  then show ?case by simp
next
  case (Cons y ys)
  have tl: "filter (\<lambda>i. (y # ys) ! (i - k) = x) [Suc k..<Suc k + length ys]
            = filter (\<lambda>i. ys ! (i - Suc k) = x) [Suc k..<Suc k + length ys]"
    by (rule filter_cong [OF refl]) (auto simp add: nth_Cons' simp del: upt_Suc)
  have split: "[k..<k + length (y # ys)] = k # [Suc k..<Suc k + length ys]"
    by (simp add: upt_rec)
  have "map fst (filter (\<lambda>p. snd p = x) (enumerate k (y # ys)))
        = (if y = x then [k] else [])
          @ map fst (filter (\<lambda>p. snd p = x) (enumerate (Suc k) ys))"
    by simp
  also have "\<dots> = (if y = x then [k] else [])
          @ filter (\<lambda>i. ys ! (i - Suc k) = x) [Suc k..<Suc k + length ys]"
    by (simp only: Cons.IH)
  also have "\<dots> = (if y = x then [k] else [])
          @ filter (\<lambda>i. (y # ys) ! (i - k) = x) [Suc k..<Suc k + length ys]"
    by (simp only: tl)
  also have "\<dots> = filter (\<lambda>i. (y # ys) ! (i - k) = x) (k # [Suc k..<Suc k + length ys])"
    by simp
  also have "\<dots> = filter (\<lambda>i. (y # ys) ! (i - k) = x) [k..<k + length (y # ys)]"
    by (simp only: split)
  finally show ?case .
qed

lemma rev_ones: "filter (\<lambda>i. rev s ! i = CHR ''1'') [0..<length s] = one_positions s"
  unfolding one_positions_def
  by (rule filter_cong [OF refl]) (simp add: rev_nth)

lemma oracle_positions:
  "map fst (filter (\<lambda>p. snd p = CHR ''1'') (enumerate 0 (rev s))) = one_positions s"
  using enumerate_ones [of "CHR ''1''" 0 "rev s"] rev_ones [of s] by simp

lemma enumerate_bound: "\<forall>p \<in> set (enumerate 0 xs). fst p < length xs"
  by (auto simp: in_set_enumerate_eq)

lemma measure_same: "map (\<lambda>(q, b). Measure q b) (zip xs xs) = map (\<lambda>i. Measure i i) xs"
  by (simp add: zip_same_conv_map)

lemma upt_ok: "m \<le> k \<Longrightarrow> list_all (\<lambda>q. q < k) [0..<m]"
  by (simp add: list_all_iff)

lemma oracle_loop_secret:
  assumes "required_qubits ua up (length s) \<le> n_qubits c"
  shows "oracle_loop ua up (length s) (enumerate 0 (rev s)) c
         = Inr (emit (map (oracle_gate ua up (length s)) (one_positions s)) c)"
proof -
  have "\<forall>p \<in> set (enumerate 0 (rev s)). fst p < length s"
    using enumerate_bound [of "rev s"] by simp
  moreover have "map (\<lambda>p. oracle_gate ua up (length s) (fst p)) ps
                 = map (oracle_gate ua up (length s)) (map fst ps)" for ps :: "(nat \<times> char) list"
    by (simp add: comp_def)
  ultimately show ?thesis
    using oracle_loop_emit [of "enumerate 0 (rev s)" "length s" ua up c] assms
    by (simp only: oracle_positions)
qed

lemma build_closed_form:
  assumes "s \<noteq> []"
  shows "bernstein_vazirani_circuit s ua up =
         Inr \<lparr>n_qubits = required_qubits ua up (length s), n_clbits = length s,
              data = expected_data s ua up\<rparr>"
proof -
  let ?n = "length s"
  let ?nq = "required_qubits ua up ?n"
  let ?c0 = "new_circuit ?nq ?n"
  from assms have n: "[0..<?n] \<noteq> []" by simp
  have le: "?n \<le> ?nq" by (simp add: required_qubits_def)
  have init: "(if ua then bind_r (qc_x ?n ?c0) (qc_h [0..<?n + 1]) else qc_h [0..<?n] ?c0)
              = Inr (emit (init_gates ua ?n) ?c0)"
    using n by (simp add: qc_x_def qc_h_def qubits_ok_def bind_r_def init_gates_def
        required_qubits_def new_circuit_def emit_def list_all_iff)
  have nq: "n_qubits (emit gs ?c0) = ?nq" for gs
    by (simp add: emit_def new_circuit_def)
  have nc: "n_clbits (emit gs ?c0) = ?n" for gs
    by (simp add: emit_def new_circuit_def)
  have h2: "qc_h [0..<?n] (emit gs ?c0) = Inr (emit (gs @ map HGate [0..<?n]) ?c0)" for gs
    using n le by (simp add: qc_h_def qubits_ok_def nq emit_emit list_all_iff)
  have m: "qc_measure [0..<?n] [0..<?n] (emit gs ?c0)
           = Inr (emit (gs @ map (\<lambda>i. Measure i i) [0..<?n]) ?c0)" for gs
    using le by (simp add: qc_measure_def qubits_ok_def clbits_ok_def nq nc emit_emit
        list_all_iff measure_same)
  have b: "qc_barrier (emit gs ?c0) = Inr (emit (gs @ [Barrier [0..<?nq]]) ?c0)" for gs
    by (simp add: qc_barrier_def nq emit_emit)
  have o: "oracle_loop ua up ?n (enumerate 0 (rev s)) (emit gs ?c0)
           = Inr (emit (gs @ map (oracle_gate ua up ?n) (one_positions s)) ?c0)" for gs
    using oracle_loop_secret [of ua up s "emit gs ?c0"] by (simp add: nq emit_emit)
  have unfolded: "bernstein_vazirani_circuit s ua up =
        bind_r (if ua then bind_r (qc_x ?n ?c0) (qc_h [0..<?n + 1]) else qc_h [0..<?n] ?c0)
          (\<lambda>circuit.
        bind_r (qc_barrier circuit) (\<lambda>circuit.
        bind_r (oracle_loop ua up ?n (enumerate 0 (rev s)) circuit) (\<lambda>circuit.
        bind_r (qc_barrier circuit) (\<lambda>circuit.
        bind_r (qc_h [0..<?n] circuit) (\<lambda>circuit.
        qc_measure [0..<?n] [0..<?n] circuit)))))"
    by (simp add: bernstein_vazirani_circuit_def Let_def required_qubits_def)
  have "bernstein_vazirani_circuit s ua up =
        Inr (emit (((((init_gates ua ?n @ [Barrier [0..<?nq]])
                      @ map (oracle_gate ua up ?n) (one_positions s))
                      @ [Barrier [0..<?nq]])
                      @ map HGate [0..<?n])
                      @ map (\<lambda>i. Measure i i) [0..<?n]) ?c0)"
    by (simp only: unfolded init bind_Inr b o h2 m)
  then show ?thesis by (simp add: emit_def new_circuit_def expected_data_def Let_def)
qed

section \<open>Positions of the secret and the operations of the built circuit\<close>

lemma set_one_positions:
  "set (one_positions s) = {i. i < length s \<and> s ! (length s - 1 - i) = CHR ''1''}"
  by (auto simp: one_positions_def)

lemma distinct_one_positions: "distinct (one_positions s)"
  by (simp add: one_positions_def)

lemma sorted_one_positions: "sorted (one_positions s)"
  unfolding one_positions_def by (rule sorted_wrt_filter) simp

lemma length_one_positions: "length (one_positions s) = popcount s"
proof -
  have "length (filter (\<lambda>i. rev s ! i = CHR ''1'') [0..<length (rev s)])
        = length (filter (\<lambda>ch. ch = CHR ''1'') (map (\<lambda>i. rev s ! i) [0..<length (rev s)]))"
    by (simp add: comp_def)
  also have "\<dots> = length (filter (\<lambda>ch. ch = CHR ''1'') (rev s))"
    by (simp only: map_nth)
  also have "\<dots> = popcount s"
    by (simp add: popcount_def flip: rev_filter)
  finally show ?thesis using rev_ones [of s] by simp
qed

lemma one_positions_zero:
  assumes "\<forall>ch \<in> set s. ch = CHR ''0''"
  shows "one_positions s = []"
proof -
  have "s ! (length s - 1 - i) \<noteq> CHR ''1''" if "i < length s" for i
  proof -
    have "s ! (length s - 1 - i) \<in> set s"
      using that by (intro nth_mem) arith
    with assms have "s ! (length s - 1 - i) = CHR ''0''" by (rule bspec)
    then show ?thesis by simp
  qed
  then show ?thesis by (simp add: one_positions_def filter_empty_conv)
qed

lemma cx_of_H: "filter is_cx (map HGate xs) = []"
  by (induction xs) simp_all

lemma cx_of_X: "filter is_cx (map XGate xs) = []"
  by (induction xs) simp_all

lemma cx_of_M: "filter is_cx (map (\<lambda>i. Measure i i) xs) = []"
  by (induction xs) simp_all

lemma cx_of_CX: "filter is_cx (map (\<lambda>i. CXGate i (f i)) xs) = map (\<lambda>i. CXGate i (f i)) xs"
  by (induction xs) simp_all

lemma cx_of_init: "filter is_cx (init_gates ua n) = []"
  by (simp add: init_gates_def cx_of_H)

lemma cx_of_oracle:
  "filter is_cx (map (oracle_gate ua up n) xs)
   = (if ua then map (\<lambda>i. CXGate i n) xs
      else if up then map (\<lambda>i. CXGate i (n + i)) xs else [])"
  by (induction xs) (simp_all add: oracle_gate_def)

lemma cx_of_expected:
  "filter is_cx (expected_data s ua up)
   = (if ua then map (\<lambda>i. CXGate i (length s)) (one_positions s)
      else if up then map (\<lambda>i. CXGate i (length s + i)) (one_positions s) else [])"
  by (simp add: expected_data_def Let_def cx_of_init cx_of_H cx_of_M cx_of_oracle)

lemma cx_in_filter: "CXGate i t \<in> set gs \<longleftrightarrow> CXGate i t \<in> set (filter is_cx gs)"
  by simp

lemma measure_of_H: "filter is_measurement (map HGate xs) = []"
  by (induction xs) simp_all

lemma measure_of_M:
  "filter is_measurement (map (\<lambda>i. Measure i i) xs) = map (\<lambda>i. Measure i i) xs"
  by (induction xs) simp_all

lemma measure_of_oracle: "filter is_measurement (map (oracle_gate ua up n) xs) = []"
  by (induction xs) (simp_all add: oracle_gate_def)

lemma measure_of_expected:
  "filter is_measurement (expected_data s ua up) = map (\<lambda>i. Measure i i) [0..<length s]"
  by (simp add: expected_data_def Let_def init_gates_def measure_of_H measure_of_M
      measure_of_oracle)

lemma measure_in_filter: "Measure q b \<in> set gs \<longleftrightarrow> Measure q b \<in> set (filter is_measurement gs)"
  by simp

lemma cx_member:
  "CXGate i t \<in> set (expected_data s ua up)
   \<longleftrightarrow> i \<in> set (one_positions s)
        \<and> (if ua then t = length s else up \<and> t = length s + i)"
proof -
  have "CXGate i t \<in> set (expected_data s ua up)
        \<longleftrightarrow> CXGate i t \<in> set (filter is_cx (expected_data s ua up))"
    by simp
  also have "\<dots> \<longleftrightarrow> i \<in> set (one_positions s)
        \<and> (if ua then t = length s else up \<and> t = length s + i)"
    unfolding cx_of_expected by auto
  finally show ?thesis .
qed

lemma build_result:
  assumes "s \<noteq> []"
  shows "\<exists>c. bernstein_vazirani_circuit s ua up = Inr c
           \<and> n_qubits c = required_qubits ua up (length s)
           \<and> n_clbits c = length s
           \<and> data c = expected_data s ua up"
  using build_closed_form [OF assms, of ua up] by simp

lemma oracle_loop_ancilla:
  "oracle_loop True up n ps c = oracle_loop True False n ps c"
proof (induction ps arbitrary: c)
  case Nil
  show ?case by simp
next
  case (Cons p ps)
  obtain i b where p: "p = (i, b)" by (cases p)
  have "oracle_loop True up n ps = oracle_loop True False n ps"
    using Cons.IH by (intro ext)
  then show ?case using p by simp
qed

lemma build_ancilla:
  "bernstein_vazirani_circuit s True up = bernstein_vazirani_circuit s True False"
  by (simp add: bernstein_vazirani_circuit_def oracle_loop_ancilla [of up])

lemma count_cx_filter: "count_list gs (CXGate i t) = count_list (filter is_cx gs) (CXGate i t)"
  by (induction gs) auto

lemma distinct_count_one: "distinct xs \<Longrightarrow> x \<in> set xs \<Longrightarrow> count_list xs x = 1"
  by (induction xs) auto

lemma count_paired:
  assumes "i \<in> set (one_positions s)"
  shows "count_list (expected_data s False True) (CXGate i (length s + i)) = 1"
proof -
  have inj: "inj_on (\<lambda>i. CXGate i (length s + i)) (set (one_positions s))"
    by (rule inj_onI) simp
  have "count_list (expected_data s False True) (CXGate i (length s + i))
        = count_list (map (\<lambda>i. CXGate i (length s + i)) (one_positions s))
            (CXGate i (length s + i))"
    by (subst count_cx_filter) (simp add: cx_of_expected)
  also have "\<dots> = count_list (one_positions s) i"
    using inj assms by (rule count_list_inj_map)
  also have "\<dots> = 1"
    using distinct_one_positions assms by (rule distinct_count_one)
  finally show ?thesis .
qed

lemma x_member_plain:
  "XGate i \<in> set (expected_data s False False) \<longleftrightarrow> i \<in> set (one_positions s)"
  by (auto simp: expected_data_def Let_def init_gates_def oracle_gate_def)

lemma measure_member:
  "Measure q b \<in> set (expected_data s ua up) \<longleftrightarrow> q < length s \<and> b = q"
proof -
  have "Measure q b \<in> set (expected_data s ua up)
        \<longleftrightarrow> Measure q b \<in> set (filter is_measurement (expected_data s ua up))"
    by simp
  also have "\<dots> \<longleftrightarrow> q < length s \<and> b = q"
    unfolding measure_of_expected by auto
  finally show ?thesis .
qed

lemma length_zeroed: "length (zeroed s) = length s"
  by (simp add: zeroed_def)

lemma one_positions_zeroed: "one_positions (zeroed s) = one_positions s"
  unfolding one_positions_def length_zeroed
  by (rule filter_cong [OF refl]) (simp add: zeroed_def)

lemma expected_data_zeroed: "expected_data (zeroed s) ua up = expected_data s ua up"
  by (simp add: expected_data_def length_zeroed one_positions_zeroed)

lemma expected_data_explicit:
  "expected_data s ua up =
     (if ua then XGate (length s) # map HGate [0..<length s + 1] else map HGate [0..<length s])
     @ [Barrier [0..<required_qubits ua up (length s)]]
     @ map (\<lambda>i. if ua then CXGate i (length s)
                else if up then CXGate i (length s + i) else XGate i)
         (filter (\<lambda>i. s ! (length s - 1 - i) = CHR ''1'') [0..<length s])
     @ [Barrier [0..<required_qubits ua up (length s)]]
     @ map HGate [0..<length s]
     @ map (\<lambda>i. Measure i i) [0..<length s]"
proof -
  have "oracle_gate ua up (length s)
        = (\<lambda>i. if ua then CXGate i (length s)
                else if up then CXGate i (length s + i) else XGate i)"
    by (intro ext) (simp add: oracle_gate_def)
  then show ?thesis
    by (simp add: expected_data_def Let_def init_gates_def one_positions_def)
qed

section \<open>The claims\<close>

text \<open>
  C1. For every non-empty binary secret \<open>s\<close> of length \<open>n\<close>, the builder in ancilla mode
  returns a circuit whose controlled flips are exactly one \<open>CXGate i n\<close> for each position
  \<open>i\<close> whose right-to-left bit is \<open>1\<close>, in ascending order: there are \<open>popcount s\<close> of them,
  each targets the ancilla line \<open>n\<close>, the set of control lines is the set of positions
  \<open>i < n\<close> with \<open>s ! (n - 1 - i) = 1\<close>, and an all-zero secret yields no controlled flip.
  These controlled flips are all the oracle emits: the operations between the two
  barriers are exactly that list, so a position whose bit is \<open>0\<close> produces no operation of
  any kind, and for an all-zero secret the second barrier follows the first directly.
\<close>

theorem ancilla_controlled_flips:
  assumes "s \<noteq> []" and "set s \<subseteq> {CHR ''0'', CHR ''1''}"
  shows "\<exists>c. bernstein_vazirani_circuit s True False = Inr c
           \<and> filter is_cx (data c) = map (\<lambda>i. CXGate i (length s)) (one_positions s)
           \<and> length (filter is_cx (data c)) = popcount s
           \<and> (\<forall>i t. CXGate i t \<in> set (data c) \<longrightarrow> t = length s)
           \<and> {i. \<exists>t. CXGate i t \<in> set (data c)}
               = {i. i < length s \<and> s ! (length s - 1 - i) = CHR ''1''}
           \<and> ((\<forall>ch \<in> set s. ch = CHR ''0'') \<longrightarrow> filter is_cx (data c) = [])
           \<and> data c =
               XGate (length s) # map HGate [0..<length s + 1]
               @ [Barrier [0..<n_qubits c]]
               @ map (\<lambda>i. CXGate i (length s))
                   (filter (\<lambda>i. s ! (length s - 1 - i) = CHR ''1'') [0..<length s])
               @ [Barrier [0..<n_qubits c]]
               @ map HGate [0..<length s]
               @ map (\<lambda>i. Measure i i) [0..<length s]
           \<and> ((\<forall>ch \<in> set s. ch = CHR ''0'') \<longrightarrow>
                 data c =
                   XGate (length s) # map HGate [0..<length s + 1]
                   @ [Barrier [0..<n_qubits c], Barrier [0..<n_qubits c]]
                   @ map HGate [0..<length s]
                   @ map (\<lambda>i. Measure i i) [0..<length s])"
proof -
  from build_result [OF assms(1), of True False] obtain c where
    run: "bernstein_vazirani_circuit s True False = Inr c"
    and nq: "n_qubits c = required_qubits True False (length s)"
    and d: "data c = expected_data s True False"
    by (elim exE conjE)
  have cx: "filter is_cx (data c) = map (\<lambda>i. CXGate i (length s)) (one_positions s)"
    by (simp add: d cx_of_expected)
  have len: "length (filter is_cx (data c)) = popcount s"
    by (simp add: d cx_of_expected length_one_positions)
  have tgt: "\<forall>i t. CXGate i t \<in> set (data c) \<longrightarrow> t = length s"
    by (simp add: d cx_member)
  have ctl: "{i. \<exists>t. CXGate i t \<in> set (data c)}
             = {i. i < length s \<and> s ! (length s - 1 - i) = CHR ''1''}"
    by (simp add: d cx_member set_one_positions)
  have zero: "(\<forall>ch \<in> set s. ch = CHR ''0'') \<longrightarrow> filter is_cx (data c) = []"
    by (simp add: d cx_of_expected one_positions_zero)
  have whole: "data c =
      XGate (length s) # map HGate [0..<length s + 1]
      @ [Barrier [0..<n_qubits c]]
      @ map (\<lambda>i. CXGate i (length s))
          (filter (\<lambda>i. s ! (length s - 1 - i) = CHR ''1'') [0..<length s])
      @ [Barrier [0..<n_qubits c]]
      @ map HGate [0..<length s]
      @ map (\<lambda>i. Measure i i) [0..<length s]"
    by (simp only: d nq expected_data_explicit [of s True False] if_True append_Cons)
  have none: "(\<forall>ch \<in> set s. ch = CHR ''0'') \<longrightarrow>
      data c =
        XGate (length s) # map HGate [0..<length s + 1]
        @ [Barrier [0..<n_qubits c], Barrier [0..<n_qubits c]]
        @ map HGate [0..<length s]
        @ map (\<lambda>i. Measure i i) [0..<length s]"
  proof
    assume "\<forall>ch \<in> set s. ch = CHR ''0''"
    then have "one_positions s = []" by (rule one_positions_zero)
    then have "filter (\<lambda>i. s ! (length s - 1 - i) = CHR ''1'') [0..<length s] = []"
      by (simp only: one_positions_def)
    with whole show "data c =
        XGate (length s) # map HGate [0..<length s + 1]
        @ [Barrier [0..<n_qubits c], Barrier [0..<n_qubits c]]
        @ map HGate [0..<length s]
        @ map (\<lambda>i. Measure i i) [0..<length s]"
      by simp
  qed
  from run cx len tgt ctl zero whole none show ?thesis
    by (intro exI [of _ c] conjI)
qed

theorem ancilla_controlled_flips_witness:
  "''101'' \<noteq> [] \<and> set ''101'' \<subseteq> {CHR ''0'', CHR ''1''}
   \<and> (\<exists>c. bernstein_vazirani_circuit ''101'' True False = Inr c
           \<and> filter is_cx (data c) = [CXGate 0 3, CXGate 2 3]
           \<and> length (filter is_cx (data c)) = 2
           \<and> data c = [XGate 3, HGate 0, HGate 1, HGate 2, HGate 3, Barrier [0..<n_qubits c],
                        CXGate 0 3, CXGate 2 3, Barrier [0..<n_qubits c],
                        HGate 0, HGate 1, HGate 2, Measure 0 0, Measure 1 1, Measure 2 2])"
proof -
  have h1: "''101'' \<noteq> []" by simp
  have h2: "set ''101'' \<subseteq> {CHR ''0'', CHR ''1''}" by simp
  have p: "one_positions ''101'' = [0, 2]" by code_simp
  have q: "popcount ''101'' = 2" by code_simp
  have len: "length ''101'' = 3" by simp
  have pos: "filter (\<lambda>i. ''101'' ! (3 - 1 - i) = CHR ''1'') [0..<3] = [0, 2]"
    by code_simp
  have u3: "[0..<3] = [0, 1, 2]" and u4: "[0..<3 + 1] = [0, 1, 2, 3]"
    by code_simp+
  from ancilla_controlled_flips [OF h1 h2] obtain c where
    run: "bernstein_vazirani_circuit ''101'' True False = Inr c"
    and cx: "filter is_cx (data c)
             = map (\<lambda>i. CXGate i (length ''101'')) (one_positions ''101'')"
    and n: "length (filter is_cx (data c)) = popcount ''101''"
    and d: "data c =
      XGate (length ''101'') # map HGate [0..<length ''101'' + 1]
      @ [Barrier [0..<n_qubits c]]
      @ map (\<lambda>i. CXGate i (length ''101''))
          (filter (\<lambda>i. ''101'' ! (length ''101'' - 1 - i) = CHR ''1'') [0..<length ''101''])
      @ [Barrier [0..<n_qubits c]]
      @ map HGate [0..<length ''101'']
      @ map (\<lambda>i. Measure i i) [0..<length ''101'']"
    by (elim exE conjE)
  from cx have cx': "filter is_cx (data c) = [CXGate 0 3, CXGate 2 3]"
    by (simp add: p)
  from n have n': "length (filter is_cx (data c)) = 2"
    by (simp only: q)
  from d have d': "data c = [XGate 3, HGate 0, HGate 1, HGate 2, HGate 3,
                        Barrier [0..<n_qubits c],
                        CXGate 0 3, CXGate 2 3, Barrier [0..<n_qubits c],
                        HGate 0, HGate 1, HGate 2, Measure 0 0, Measure 1 1, Measure 2 2]"
    unfolding len pos u3 u4 by simp
  from run cx' n' d' have "\<exists>c. bernstein_vazirani_circuit ''101'' True False = Inr c
           \<and> filter is_cx (data c) = [CXGate 0 3, CXGate 2 3]
           \<and> length (filter is_cx (data c)) = 2
           \<and> data c = [XGate 3, HGate 0, HGate 1, HGate 2, HGate 3, Barrier [0..<n_qubits c],
                        CXGate 0 3, CXGate 2 3, Barrier [0..<n_qubits c],
                        HGate 0, HGate 1, HGate 2, Measure 0 0, Measure 1 1, Measure 2 2]"
    by (intro exI [of _ c] conjI)
  with h1 h2 show ?thesis by (intro conjI)
qed

text \<open>
  C2. For every non-empty binary secret of length \<open>n\<close>, the returned circuit declares
  \<open>n + 1\<close> qubit lines in ancilla mode, \<open>2 * n\<close> in paired mode and \<open>n\<close> in plain mode, and
  \<open>n\<close> classical bits in every mode. The witness is the scenario of the secret \<open>101\<close> in
  ancilla mode: 4 lines and 3 classical bits.
\<close>

theorem declared_line_counts:
  assumes "s \<noteq> []" and "set s \<subseteq> {CHR ''0'', CHR ''1''}"
  shows "\<exists>c. bernstein_vazirani_circuit s use_ancilla use_paired_qubits = Inr c
           \<and> n_qubits c = (if use_ancilla then length s + 1
                            else if use_paired_qubits then 2 * length s else length s)
           \<and> n_clbits c = length s"
proof -
  from build_result [OF assms(1), of use_ancilla use_paired_qubits] obtain c where
    run: "bernstein_vazirani_circuit s use_ancilla use_paired_qubits = Inr c"
    and nq: "n_qubits c = required_qubits use_ancilla use_paired_qubits (length s)"
    and nc: "n_clbits c = length s"
    by (elim exE conjE)
  have "n_qubits c = (if use_ancilla then length s + 1
                      else if use_paired_qubits then 2 * length s else length s)"
    using nq by (simp only: required_qubits_def)
  with run nc show ?thesis by (intro exI [of _ c] conjI)
qed

theorem declared_line_counts_witness:
  "''101'' \<noteq> [] \<and> set ''101'' \<subseteq> {CHR ''0'', CHR ''1''}
   \<and> (\<exists>c. bernstein_vazirani_circuit ''101'' True False = Inr c
           \<and> n_qubits c = 4 \<and> n_clbits c = 3)"
proof -
  have h1: "''101'' \<noteq> []" by simp
  have h2: "set ''101'' \<subseteq> {CHR ''0'', CHR ''1''}" by simp
  from declared_line_counts [OF h1 h2, of True False] obtain c where
    "bernstein_vazirani_circuit ''101'' True False = Inr c"
    "n_qubits c = (if True then length ''101'' + 1
                   else if False then 2 * length ''101'' else length ''101'')"
    "n_clbits c = length ''101''"
    by (elim exE conjE)
  then have "bernstein_vazirani_circuit ''101'' True False = Inr c
             \<and> n_qubits c = 4 \<and> n_clbits c = 3"
    by simp
  then have "\<exists>c. bernstein_vazirani_circuit ''101'' True False = Inr c
             \<and> n_qubits c = 4 \<and> n_clbits c = 3" ..
  with h1 h2 show ?thesis by (intro conjI)
qed

text \<open>
  C3. Mode precedence: with the ancilla flag set the paired flag has no effect. The two
  calls give the same result for every secret, and for a non-empty secret that result is
  a circuit.
\<close>

theorem ancilla_takes_precedence:
  "bernstein_vazirani_circuit s True True = bernstein_vazirani_circuit s True False
   \<and> (s \<noteq> [] \<longrightarrow> (\<exists>c. bernstein_vazirani_circuit s True True = Inr c))"
proof (intro conjI impI)
  show "bernstein_vazirani_circuit s True True = bernstein_vazirani_circuit s True False"
    by (rule build_ancilla)
  show "\<exists>c. bernstein_vazirani_circuit s True True = Inr c" if "s \<noteq> []"
    using build_result [OF that, of True True] by (elim exE conjE) (rule exI)
qed

theorem ancilla_takes_precedence_witness:
  "bernstein_vazirani_circuit ''101'' True True = bernstein_vazirani_circuit ''101'' True False
   \<and> ''101'' \<noteq> []
   \<and> (\<exists>c. bernstein_vazirani_circuit ''101'' True True = Inr c)"
proof -
  have h: "''101'' \<noteq> []" by simp
  note both = ancilla_takes_precedence [of "''101''"]
  from both have eq: "bernstein_vazirani_circuit ''101'' True True
                      = bernstein_vazirani_circuit ''101'' True False"
    by (rule conjunct1)
  from both have run: "''101'' \<noteq> []
                       \<longrightarrow> (\<exists>c. bernstein_vazirani_circuit ''101'' True True = Inr c)"
    by (rule conjunct2)
  from run h have "\<exists>c. bernstein_vazirani_circuit ''101'' True True = Inr c" by (rule mp)
  with eq h show ?thesis by (intro conjI)
qed

text \<open>
  C4. Paired mode: for every non-empty binary secret of length \<open>n\<close>, the controlled flips
  of the circuit are exactly one \<open>CXGate i (n + i)\<close> for each position \<open>i\<close> whose
  right-to-left bit is \<open>1\<close>; each of them occurs exactly once in the circuit, and no other
  controlled flip occurs. The witness is the scenario of the secret \<open>1\<close>: 2 lines, 1
  classical bit, one controlled flip from line 0 to line 1.
\<close>

theorem paired_controlled_flips:
  assumes "s \<noteq> []" and "set s \<subseteq> {CHR ''0'', CHR ''1''}"
  shows "\<exists>c. bernstein_vazirani_circuit s False True = Inr c
           \<and> n_qubits c = 2 * length s \<and> n_clbits c = length s
           \<and> filter is_cx (data c) = map (\<lambda>i. CXGate i (length s + i)) (one_positions s)
           \<and> (\<forall>i < length s. s ! (length s - 1 - i) = CHR ''1''
                 \<longrightarrow> count_list (data c) (CXGate i (length s + i)) = 1)
           \<and> (\<forall>i t. CXGate i t \<in> set (data c)
                 \<longrightarrow> i < length s \<and> s ! (length s - 1 - i) = CHR ''1'' \<and> t = length s + i)"
proof -
  from build_result [OF assms(1), of False True] obtain c where
    run: "bernstein_vazirani_circuit s False True = Inr c"
    and nq: "n_qubits c = required_qubits False True (length s)"
    and nc: "n_clbits c = length s"
    and d: "data c = expected_data s False True"
    by (elim exE conjE)
  have "n_qubits c = 2 * length s"
    using nq by (simp add: required_qubits_def)
  moreover have "filter is_cx (data c) = map (\<lambda>i. CXGate i (length s + i)) (one_positions s)"
    by (simp add: d cx_of_expected)
  moreover have "\<forall>i < length s. s ! (length s - 1 - i) = CHR ''1''
                   \<longrightarrow> count_list (data c) (CXGate i (length s + i)) = 1"
    by (simp add: d count_paired set_one_positions)
  moreover have "\<forall>i t. CXGate i t \<in> set (data c)
                   \<longrightarrow> i < length s \<and> s ! (length s - 1 - i) = CHR ''1'' \<and> t = length s + i"
    by (simp add: d cx_member set_one_positions)
  ultimately show ?thesis using run nc by (intro exI [of _ c] conjI)
qed

theorem paired_controlled_flips_witness:
  "''1'' \<noteq> [] \<and> set ''1'' \<subseteq> {CHR ''0'', CHR ''1''}
   \<and> (\<exists>c. bernstein_vazirani_circuit ''1'' False True = Inr c
           \<and> n_qubits c = 2 \<and> n_clbits c = 1
           \<and> filter is_cx (data c) = [CXGate 0 1])"
proof -
  have h1: "''1'' \<noteq> []" by simp
  have h2: "set ''1'' \<subseteq> {CHR ''0'', CHR ''1''}" by simp
  have p: "one_positions ''1'' = [0]" by code_simp
  from paired_controlled_flips [OF h1 h2] obtain c where
    "bernstein_vazirani_circuit ''1'' False True = Inr c"
    "n_qubits c = 2 * length ''1''" "n_clbits c = length ''1''"
    "filter is_cx (data c) = map (\<lambda>i. CXGate i (length ''1'' + i)) (one_positions ''1'')"
    by (elim exE conjE)
  then have "bernstein_vazirani_circuit ''1'' False True = Inr c
             \<and> n_qubits c = 2 \<and> n_clbits c = 1
             \<and> filter is_cx (data c) = [CXGate 0 1]"
    by (simp add: p)
  then have "\<exists>c. bernstein_vazirani_circuit ''1'' False True = Inr c
             \<and> n_qubits c = 2 \<and> n_clbits c = 1
             \<and> filter is_cx (data c) = [CXGate 0 1]" ..
  with h1 h2 show ?thesis by (intro conjI)
qed

text \<open>
  C5. Construction order: for every non-empty binary secret and every mode the operations
  of the returned circuit are, in this order, the initialisation (in ancilla mode the flip
  of the ancilla line followed by the Hadamard gates on lines \<open>0..n\<close>, otherwise the
  Hadamard gates on lines \<open>0..n-1\<close>), a barrier, the oracle operations for the positions
  with bit \<open>1\<close> in ascending order, a second barrier, the Hadamard gates on lines
  \<open>0..n-1\<close>, and the measurements.
\<close>

theorem construction_order:
  assumes "s \<noteq> []" and "set s \<subseteq> {CHR ''0'', CHR ''1''}"
  shows "\<exists>c. bernstein_vazirani_circuit s use_ancilla use_paired_qubits = Inr c
           \<and> data c =
               (if use_ancilla then XGate (length s) # map HGate [0..<length s + 1]
                else map HGate [0..<length s])
               @ [Barrier [0..<n_qubits c]]
               @ map (\<lambda>i. if use_ancilla then CXGate i (length s)
                          else if use_paired_qubits then CXGate i (length s + i)
                          else XGate i)
                   (filter (\<lambda>i. s ! (length s - 1 - i) = CHR ''1'') [0..<length s])
               @ [Barrier [0..<n_qubits c]]
               @ map HGate [0..<length s]
               @ map (\<lambda>i. Measure i i) [0..<length s]"
proof -
  from build_result [OF assms(1), of use_ancilla use_paired_qubits] obtain c where
    run: "bernstein_vazirani_circuit s use_ancilla use_paired_qubits = Inr c"
    and nq: "n_qubits c = required_qubits use_ancilla use_paired_qubits (length s)"
    and d: "data c = expected_data s use_ancilla use_paired_qubits"
    by (elim exE conjE)
  from d have "data c =
      (if use_ancilla then XGate (length s) # map HGate [0..<length s + 1]
       else map HGate [0..<length s])
      @ [Barrier [0..<n_qubits c]]
      @ map (\<lambda>i. if use_ancilla then CXGate i (length s)
                 else if use_paired_qubits then CXGate i (length s + i)
                 else XGate i)
          (filter (\<lambda>i. s ! (length s - 1 - i) = CHR ''1'') [0..<length s])
      @ [Barrier [0..<n_qubits c]]
      @ map HGate [0..<length s]
      @ map (\<lambda>i. Measure i i) [0..<length s]"
    by (simp only: nq expected_data_explicit)
  with run show ?thesis by (intro exI [of _ c] conjI)
qed

theorem construction_order_witness:
  "''110'' \<noteq> [] \<and> set ''110'' \<subseteq> {CHR ''0'', CHR ''1''}
   \<and> (\<exists>c. bernstein_vazirani_circuit ''110'' True False = Inr c
           \<and> data c = [XGate 3, HGate 0, HGate 1, HGate 2, HGate 3, Barrier [0..<n_qubits c],
                        CXGate 1 3, CXGate 2 3, Barrier [0..<n_qubits c],
                        HGate 0, HGate 1, HGate 2, Measure 0 0, Measure 1 1, Measure 2 2])"
proof -
  have h1: "''110'' \<noteq> []" by simp
  have h2: "set ''110'' \<subseteq> {CHR ''0'', CHR ''1''}" by simp
  have len: "length ''110'' = 3" by simp
  have pos: "filter (\<lambda>i. ''110'' ! (3 - 1 - i) = CHR ''1'') [0..<3] = [1, 2]"
    by code_simp
  have u3: "[0..<3] = [0, 1, 2]" and u4: "[0..<3 + 1] = [0, 1, 2, 3]"
    by code_simp+
  from construction_order [OF h1 h2, of True False] obtain c where
    run: "bernstein_vazirani_circuit ''110'' True False = Inr c"
    and d: "data c =
      (if True then XGate (length ''110'') # map HGate [0..<length ''110'' + 1]
       else map HGate [0..<length ''110''])
      @ [Barrier [0..<n_qubits c]]
      @ map (\<lambda>i. if True then CXGate i (length ''110'')
                 else if False then CXGate i (length ''110'' + i)
                 else XGate i)
          (filter (\<lambda>i. ''110'' ! (length ''110'' - 1 - i) = CHR ''1'') [0..<length ''110''])
      @ [Barrier [0..<n_qubits c]]
      @ map HGate [0..<length ''110'']
      @ map (\<lambda>i. Measure i i) [0..<length ''110'']"
    by (elim exE conjE)
  from d have "data c = [XGate 3, HGate 0, HGate 1, HGate 2, HGate 3, Barrier [0..<n_qubits c],
                        CXGate 1 3, CXGate 2 3, Barrier [0..<n_qubits c],
                        HGate 0, HGate 1, HGate 2, Measure 0 0, Measure 1 1, Measure 2 2]"
    unfolding len pos u3 u4 by simp
  with run have "\<exists>c. bernstein_vazirani_circuit ''110'' True False = Inr c
           \<and> data c = [XGate 3, HGate 0, HGate 1, HGate 2, HGate 3, Barrier [0..<n_qubits c],
                        CXGate 1 3, CXGate 2 3, Barrier [0..<n_qubits c],
                        HGate 0, HGate 1, HGate 2, Measure 0 0, Measure 1 1, Measure 2 2]"
    by (intro exI [of _ c] conjI)
  with h1 h2 show ?thesis by (intro conjI)
qed

text \<open>
  C6. Measurement wiring: for every non-empty binary secret of length \<open>n\<close> and every mode,
  the measurements of the circuit are exactly \<open>Measure i i\<close> for \<open>i = 0..n-1\<close>, in this
  order; a measurement of line \<open>q\<close> into bit \<open>b\<close> occurs only with \<open>q < n\<close> and \<open>b = q\<close>, so
  neither the ancilla line nor a paired line is measured.
\<close>

theorem measurement_wiring:
  assumes "s \<noteq> []" and "set s \<subseteq> {CHR ''0'', CHR ''1''}"
  shows "\<exists>c. bernstein_vazirani_circuit s use_ancilla use_paired_qubits = Inr c
           \<and> filter is_measurement (data c) = map (\<lambda>i. Measure i i) [0..<length s]
           \<and> (\<forall>q b. Measure q b \<in> set (data c) \<longleftrightarrow> q < length s \<and> b = q)"
proof -
  from build_result [OF assms(1), of use_ancilla use_paired_qubits] obtain c where
    run: "bernstein_vazirani_circuit s use_ancilla use_paired_qubits = Inr c"
    and d: "data c = expected_data s use_ancilla use_paired_qubits"
    by (elim exE conjE)
  have "filter is_measurement (data c) = map (\<lambda>i. Measure i i) [0..<length s]"
    by (simp only: d measure_of_expected)
  moreover have "\<forall>q b. Measure q b \<in> set (data c) \<longleftrightarrow> q < length s \<and> b = q"
    by (simp only: d measure_member) simp
  ultimately show ?thesis using run by (intro exI [of _ c] conjI)
qed

theorem measurement_wiring_witness:
  "''10'' \<noteq> [] \<and> set ''10'' \<subseteq> {CHR ''0'', CHR ''1''}
   \<and> (\<exists>c. bernstein_vazirani_circuit ''10'' False True = Inr c
           \<and> filter is_measurement (data c) = [Measure 0 0, Measure 1 1])"
proof -
  have h1: "''10'' \<noteq> []" by simp
  have h2: "set ''10'' \<subseteq> {CHR ''0'', CHR ''1''}" by simp
  have u: "[0..<length ''10''] = [0, 1]" by code_simp
  from measurement_wiring [OF h1 h2, of False True] obtain c where
    run: "bernstein_vazirani_circuit ''10'' False True = Inr c"
    and m: "filter is_measurement (data c) = map (\<lambda>i. Measure i i) [0..<length ''10'']"
    by (elim exE conjE)
  from m have "filter is_measurement (data c) = [Measure 0 0, Measure 1 1]"
    unfolding u by simp
  with run have "\<exists>c. bernstein_vazirani_circuit ''10'' False True = Inr c
           \<and> filter is_measurement (data c) = [Measure 0 0, Measure 1 1]"
    by (intro exI [of _ c] conjI)
  with h1 h2 show ?thesis by (intro conjI)
qed

text \<open>
  C7. Plain mode: for every non-empty binary secret, the circuit contains the flip
  \<open>XGate i\<close> for every position \<open>i\<close> whose right-to-left bit is \<open>1\<close> (and for no other
  line), and it contains no controlled flip.
\<close>

theorem plain_mode_flips:
  assumes "s \<noteq> []" and "set s \<subseteq> {CHR ''0'', CHR ''1''}"
  shows "\<exists>c. bernstein_vazirani_circuit s False False = Inr c
           \<and> (\<forall>i < length s. s ! (length s - 1 - i) = CHR ''1'' \<longrightarrow> XGate i \<in> set (data c))
           \<and> (\<forall>i. XGate i \<in> set (data c)
                 \<longrightarrow> i < length s \<and> s ! (length s - 1 - i) = CHR ''1'')
           \<and> filter is_cx (data c) = []
           \<and> (\<forall>i t. CXGate i t \<notin> set (data c))"
proof -
  from build_result [OF assms(1), of False False] obtain c where
    run: "bernstein_vazirani_circuit s False False = Inr c"
    and d: "data c = expected_data s False False"
    by (elim exE conjE)
  have "\<forall>i < length s. s ! (length s - 1 - i) = CHR ''1'' \<longrightarrow> XGate i \<in> set (data c)"
    by (simp add: d x_member_plain set_one_positions)
  moreover have "\<forall>i. XGate i \<in> set (data c)
                   \<longrightarrow> i < length s \<and> s ! (length s - 1 - i) = CHR ''1''"
    by (simp add: d x_member_plain set_one_positions)
  moreover have "filter is_cx (data c) = []"
    by (simp add: d cx_of_expected)
  moreover have "\<forall>i t. CXGate i t \<notin> set (data c)"
    by (simp add: d cx_member)
  ultimately show ?thesis using run by (intro exI [of _ c] conjI)
qed

theorem plain_mode_flips_witness:
  "''10'' \<noteq> [] \<and> set ''10'' \<subseteq> {CHR ''0'', CHR ''1''}
   \<and> (\<exists>c. bernstein_vazirani_circuit ''10'' False False = Inr c
           \<and> XGate 1 \<in> set (data c) \<and> XGate 0 \<notin> set (data c)
           \<and> filter is_cx (data c) = [])"
proof -
  have h1: "''10'' \<noteq> []" by simp
  have h2: "set ''10'' \<subseteq> {CHR ''0'', CHR ''1''}" by simp
  from plain_mode_flips [OF h1 h2] obtain c where
    run: "bernstein_vazirani_circuit ''10'' False False = Inr c"
    and x: "\<forall>i < length ''10''. ''10'' ! (length ''10'' - 1 - i) = CHR ''1''
               \<longrightarrow> XGate i \<in> set (data c)"
    and only: "\<forall>i. XGate i \<in> set (data c)
               \<longrightarrow> i < length ''10'' \<and> ''10'' ! (length ''10'' - 1 - i) = CHR ''1''"
    and cx: "filter is_cx (data c) = []"
    by (elim exE conjE)
  from x have "(1::nat) < length ''10'' \<longrightarrow> ''10'' ! (length ''10'' - 1 - 1) = CHR ''1''
               \<longrightarrow> XGate 1 \<in> set (data c)"
    by (rule spec)
  then have x1: "XGate 1 \<in> set (data c)" by simp
  from only have "XGate 0 \<in> set (data c)
               \<longrightarrow> (0::nat) < length ''10'' \<and> ''10'' ! (length ''10'' - 1 - 0) = CHR ''1''"
    by (rule spec)
  then have x0: "XGate 0 \<notin> set (data c)" by auto
  from run x1 x0 cx have "\<exists>c. bernstein_vazirani_circuit ''10'' False False = Inr c
           \<and> XGate 1 \<in> set (data c) \<and> XGate 0 \<notin> set (data c)
           \<and> filter is_cx (data c) = []"
    by (intro exI [of _ c] conjI)
  with h1 h2 show ?thesis by (intro conjI)
qed

text \<open>
  C9. Totality on valid inputs: for every non-empty binary secret and every combination
  of the two flags the builder returns a circuit; none of the method calls it makes
  raises.
\<close>

theorem builder_total_on_valid_secrets:
  assumes "s \<noteq> []" and "set s \<subseteq> {CHR ''0'', CHR ''1''}"
  shows "(\<exists>c. bernstein_vazirani_circuit s use_ancilla use_paired_qubits = Inr c)
         \<and> (\<forall>e. bernstein_vazirani_circuit s use_ancilla use_paired_qubits \<noteq> Inl e)"
proof -
  from build_result [OF assms(1), of use_ancilla use_paired_qubits] obtain c where
    run: "bernstein_vazirani_circuit s use_ancilla use_paired_qubits = Inr c"
    by (elim exE conjE)
  then show ?thesis by simp
qed

theorem builder_total_on_valid_secrets_witness:
  "''10110101'' \<noteq> [] \<and> set ''10110101'' \<subseteq> {CHR ''0'', CHR ''1''}
   \<and> (\<exists>c. bernstein_vazirani_circuit ''10110101'' True False = Inr c)
   \<and> (\<forall>e. bernstein_vazirani_circuit ''10110101'' True False \<noteq> Inl e)"
proof -
  have h1: "''10110101'' \<noteq> []" by simp
  have h2: "set ''10110101'' \<subseteq> {CHR ''0'', CHR ''1''}" by simp
  from builder_total_on_valid_secrets [OF h1 h2, of True False] h1 h2
  show ?thesis by (intro conjI) (elim conjE, assumption)+
qed

text \<open>
  C10. As stated, the claim includes the empty secret. For the empty secret the builder
  does not return: the call \<^verbatim>\<open>circuit.h(range(0))\<close> passes an empty list of lines, which the
  library refuses. This happens in every mode.
\<close>

theorem empty_secret_raises:
  "bernstein_vazirani_circuit [] True False = Inl EmptyArguments
   \<and> bernstein_vazirani_circuit [] False True = Inl EmptyArguments
   \<and> bernstein_vazirani_circuit [] False False = Inl EmptyArguments"
  by (simp add: bernstein_vazirani_circuit_def new_circuit_def qc_x_def qc_h_def
      qc_barrier_def qubits_ok_def emit_def bind_r_def)

text \<open>
  C10, amended. For every non-empty secret, whatever its characters, the builder returns
  a circuit, and it is the circuit built for the secret with every character other than
  \<open>1\<close> replaced by \<open>0\<close>: the oracle operations are those of the positions holding \<open>1\<close>.
\<close>

theorem non_one_characters_ignored:
  assumes "s \<noteq> []"
  shows "\<exists>c. bernstein_vazirani_circuit s use_ancilla use_paired_qubits = Inr c
           \<and> bernstein_vazirani_circuit (zeroed s) use_ancilla use_paired_qubits = Inr c
           \<and> data c = expected_data s use_ancilla use_paired_qubits"
proof -
  from assms have z: "zeroed s \<noteq> []" by (simp add: zeroed_def)
  have "bernstein_vazirani_circuit (zeroed s) use_ancilla use_paired_qubits
        = bernstein_vazirani_circuit s use_ancilla use_paired_qubits"
    by (simp only: build_closed_form [OF z] build_closed_form [OF assms]
        length_zeroed expected_data_zeroed)
  moreover from build_result [OF assms, of use_ancilla use_paired_qubits] obtain c where
    "bernstein_vazirani_circuit s use_ancilla use_paired_qubits = Inr c"
    "data c = expected_data s use_ancilla use_paired_qubits"
    by (elim exE conjE)
  ultimately show ?thesis by (intro exI [of _ c] conjI) simp_all
qed

theorem non_one_characters_ignored_witness:
  "''1a0'' \<noteq> []
   \<and> (\<exists>c. bernstein_vazirani_circuit ''1a0'' True False = Inr c
           \<and> bernstein_vazirani_circuit ''100'' True False = Inr c)"
proof -
  have h: "''1a0'' \<noteq> []" by simp
  have z: "zeroed ''1a0'' = ''100''" by (simp add: zeroed_def)
  from non_one_characters_ignored [OF h, of True False] obtain c where
    "bernstein_vazirani_circuit ''1a0'' True False = Inr c"
    "bernstein_vazirani_circuit (zeroed ''1a0'') True False = Inr c"
    by (elim exE conjE)
  then have "\<exists>c. bernstein_vazirani_circuit ''1a0'' True False = Inr c
           \<and> bernstein_vazirani_circuit ''100'' True False = Inr c"
    unfolding z by (intro exI [of _ c] conjI)
  with h show ?thesis by (intro conjI)
qed

end
